theory Spec2Isabelle
  imports Complex_Main "HOL-Library.Product_Lexorder" "HOL-Library.Multiset"
begin

section \<open>Timestamps\<close>

text \<open>
  A naive Python \<^verbatim>\<open>datetime\<close> is the tuple of its fields (year, month, day, hour,
  minute, second, microsecond). Python compares two of them field by field in this
  order, which is the lexicographic order on the tuple.
\<close>

type_synonym date = "int \<times> int \<times> int"
type_synonym time_of_day = "int \<times> int \<times> int \<times> int"
type_synonym datetime = "int \<times> int \<times> int \<times> int \<times> int \<times> int \<times> int"

text \<open>A \<^verbatim>\<open>timedelta\<close> is its count of microseconds.\<close>

type_synonym timedelta = int

definition is_leap :: "int \<Rightarrow> bool" where
  "is_leap y = (y mod 4 = 0 \<and> (y mod 100 \<noteq> 0 \<or> y mod 400 = 0))"

definition days_before_year :: "int \<Rightarrow> int" where
  "days_before_year y = (let y1 = y - 1 in y1 * 365 + y1 div 4 - y1 div 100 + y1 div 400)"

definition days_in_month :: "int \<Rightarrow> int \<Rightarrow> int" where
  "days_in_month y m =
     (if m = 2 then (if is_leap y then 29 else 28)
      else if m = 4 \<or> m = 6 \<or> m = 9 \<or> m = 11 then 30 else 31)"

definition days_before_month :: "int \<Rightarrow> int \<Rightarrow> int" where
  "days_before_month y m = sum_list (map (days_in_month y) [1 .. m - 1])"

definition toordinal :: "date \<Rightarrow> int" where
  "toordinal dt = (case dt of (y, m, d) \<Rightarrow> days_before_year y + days_before_month y m + d)"

definition date_of :: "datetime \<Rightarrow> date" where
  "date_of t = (case t of (y, m, d, hh, mm, ss, us) \<Rightarrow> (y, m, d))"

definition combine :: "date \<Rightarrow> time_of_day \<Rightarrow> datetime" where
  "combine dt tm = (case (dt, tm) of ((y, m, d), (hh, mm, ss, us)) \<Rightarrow> (y, m, d, hh, mm, ss, us))"

text \<open>\<^verbatim>\<open>datetime.max.time()\<close> is 23:59:59.999999.\<close>

definition max_time :: time_of_day where
  "max_time = (23, 59, 59, 999999)"

definition to_microseconds :: "datetime \<Rightarrow> int" where
  "to_microseconds t =
     (case t of (y, m, d, hh, mm, ss, us) \<Rightarrow>
        (((toordinal (y, m, d) * 24 + hh) * 60 + mm) * 60 + ss) * 1000000 + us)"

text \<open>\<^verbatim>\<open>a - b\<close> on two datetimes.\<close>

definition dt_sub :: "datetime \<Rightarrow> datetime \<Rightarrow> timedelta" where
  "dt_sub a b = to_microseconds a - to_microseconds b"

text \<open>The fields of a datetime Python can construct.\<close>

definition valid_datetime :: "datetime \<Rightarrow> bool" where
  "valid_datetime t =
     (case t of (y, m, d, hh, mm, ss, us) \<Rightarrow>
        1 \<le> y \<and> y \<le> 9999 \<and> 1 \<le> m \<and> m \<le> 12 \<and> 1 \<le> d \<and> d \<le> days_in_month y m \<and>
        0 \<le> hh \<and> hh \<le> 23 \<and> 0 \<le> mm \<and> mm \<le> 59 \<and> 0 \<le> ss \<and> ss \<le> 59 \<and>
        0 \<le> us \<and> us \<le> 999999)"

text \<open>
  \<^verbatim>\<open>str(datetime)\<close>, as the f-string of \<^verbatim>\<open>check_conflicts\<close> formats it:
  \<^verbatim>\<open>YYYY-MM-DD HH:MM:SS\<close>, followed by \<^verbatim>\<open>.ffffff\<close> when the microsecond is not zero.
\<close>

fun digits :: "nat \<Rightarrow> string" where
  "digits n = (if n < 10 then [''0123456789'' ! n] else digits (n div 10) @ [''0123456789'' ! (n mod 10)])"

definition zfill :: "nat \<Rightarrow> int \<Rightarrow> string" where
  "zfill w n = (let ds = digits (nat n) in replicate (w - length ds) (CHR ''0'') @ ds)"

definition str_datetime :: "datetime \<Rightarrow> string" where
  "str_datetime t =
     (case t of (y, m, d, hh, mm, ss, us) \<Rightarrow>
        zfill 4 y @ ''-'' @ zfill 2 m @ ''-'' @ zfill 2 d @ '' '' @
        zfill 2 hh @ '':'' @ zfill 2 mm @ '':'' @ zfill 2 ss @
        (if us = 0 then [] else ''.'' @ zfill 6 us))"

section \<open>The models and the store\<close>

text \<open>
  The three SQLAlchemy models. An \<^verbatim>\<open>Event\<close> that was never flushed has no
  \<^verbatim>\<open>event_id\<close> yet (Python's \<^verbatim>\<open>None\<close>).
\<close>

record event =
  event_id :: "int option"
  title :: string
  start_time :: datetime
  end_time :: datetime
  description :: "string option"

record resource =
  resource_id :: int
  resource_name :: string
  resource_type :: string

record allocation =
  allocation_id :: int
  alloc_event_id :: int
  alloc_resource_id :: int

text \<open>The database: each table is the list of its rows, in insertion order.\<close>

record db =
  events :: "event list"
  resources :: "resource list"
  allocations :: "allocation list"

datatype error = ValueError | AttributeError | NotFound | IntegrityError

text \<open>
  A piece of code that runs against the database either raises or returns a value, and
  leaves a database behind.
\<close>

type_synonym 'a action = "db \<Rightarrow> (error + 'a) \<times> db"

definition succeed :: "'a \<Rightarrow> 'a action" where
  "succeed x = (\<lambda>d. (Inr x, d))"

definition throw :: "error \<Rightarrow> 'a action" where
  "throw e = (\<lambda>d. (Inl e, d))"

definition and_then :: "'a action \<Rightarrow> ('a \<Rightarrow> 'b action) \<Rightarrow> 'b action" where
  "and_then m f = (\<lambda>d. case m d of (Inl e, d') \<Rightarrow> (Inl e, d') | (Inr x, d') \<Rightarrow> f x d')"

text \<open>\<^verbatim>\<open>for x in xs: body\<close>, the loop's variables being the state \<open>s\<close>.\<close>

fun for_each :: "'x list \<Rightarrow> ('x \<Rightarrow> 's \<Rightarrow> 's action) \<Rightarrow> 's \<Rightarrow> 's action" where
  "for_each [] body s = succeed s"
| "for_each (x # xs) body s = and_then (body x s) (for_each xs body)"

text \<open>
  The relationships \<^verbatim>\<open>alloc.event\<close>, \<^verbatim>\<open>alloc.resource\<close> and
  \<^verbatim>\<open>resource.allocations\<close>, loaded through the foreign keys. A key that matches no row
  loads \<^verbatim>\<open>None\<close>.
\<close>

definition event_of :: "db \<Rightarrow> allocation \<Rightarrow> event option" where
  "event_of d a = find (\<lambda>e. event_id e = Some (alloc_event_id a)) (events d)"

definition resource_of :: "db \<Rightarrow> allocation \<Rightarrow> resource option" where
  "resource_of d a = find (\<lambda>r. resource_id r = alloc_resource_id a) (resources d)"

definition allocations_on :: "db \<Rightarrow> int \<Rightarrow> allocation list" where
  "allocations_on d rid = filter (\<lambda>a. alloc_resource_id a = rid) (allocations d)"

definition rel_event :: "allocation \<Rightarrow> event option action" where
  "rel_event a = (\<lambda>d. (Inr (event_of d a), d))"

definition rel_resource :: "allocation \<Rightarrow> resource option action" where
  "rel_resource a = (\<lambda>d. (Inr (resource_of d a), d))"

definition rel_allocations :: "resource \<Rightarrow> allocation list action" where
  "rel_allocations r = (\<lambda>d. (Inr (allocations_on d (resource_id r)), d))"

text \<open>The queries of the code. None of them writes.\<close>

definition query_allocations_filter_by_resource :: "int \<Rightarrow> allocation list action" where
  "query_allocations_filter_by_resource rid = (\<lambda>d. (Inr (allocations_on d rid), d))"


definition query_resources_all :: "resource list action" where
  "query_resources_all = (\<lambda>d. (Inr (resources d), d))"

text \<open>Reading an attribute of \<^verbatim>\<open>None\<close> raises \<^verbatim>\<open>AttributeError\<close>.\<close>

definition attr :: "'a option \<Rightarrow> 'a action" where
  "attr x = (case x of None \<Rightarrow> throw AttributeError | Some v \<Rightarrow> succeed v)"

section \<open>check_conflicts\<close>

text \<open>
  The overlap test, which the source writes inline in \<^verbatim>\<open>check_conflicts\<close>
  (\<^verbatim>\<open>event.start_time < other_event.end_time and event.end_time > other_event.start_time\<close>)
  and in \<^verbatim>\<open>conflict_view\<close>
  (\<^verbatim>\<open>e1.start_time < e2.end_time and e1.end_time > e2.start_time\<close>).
\<close>

definition overlaps :: "datetime \<Rightarrow> datetime \<Rightarrow> datetime \<Rightarrow> datetime \<Rightarrow> bool" where
  "overlaps startA endA startB endB = (startA < endB \<and> endA > startB)"

definition conflict_message :: "resource \<Rightarrow> event \<Rightarrow> string" where
  "conflict_message r other_event =
     ''Resource '' @ [CHR 0x27] @ resource_name r @ [CHR 0x27] @ '' '' @
     ''is already booked by event '' @ [CHR 0x27] @ title other_event @ [CHR 0x27] @ '' '' @
     ''from '' @ str_datetime (start_time other_event) @
     '' to '' @ str_datetime (end_time other_event) @ ''.''"

text \<open>The body of the inner loop, for one allocation.\<close>

definition check_alloc :: "event \<Rightarrow> allocation \<Rightarrow> string list \<Rightarrow> string list action" where
  "check_alloc ev alloc conflicts =
     and_then (rel_event alloc) (\<lambda>loaded. and_then (attr loaded) (\<lambda>other_event.
       if event_id other_event = event_id ev then succeed conflicts
       else if overlaps (start_time ev) (end_time ev) (start_time other_event) (end_time other_event)
       then and_then (rel_resource alloc) (\<lambda>loaded_r. and_then (attr loaded_r) (\<lambda>r.
              succeed (conflicts @ [conflict_message r other_event])))
       else succeed conflicts))"

text \<open>The body of the outer loop, for one resource id.\<close>

definition check_resource :: "event \<Rightarrow> int \<Rightarrow> string list \<Rightarrow> string list action" where
  "check_resource ev rid conflicts =
     and_then (query_allocations_filter_by_resource rid) (\<lambda>allocs.
       for_each allocs (check_alloc ev) conflicts)"

definition check_conflicts :: "event \<Rightarrow> int list \<Rightarrow> string list action" where
  "check_conflicts ev resource_ids =
     (if start_time ev \<ge> end_time ev
      then succeed [''Event start time must be before end time.'']
      else for_each resource_ids (check_resource ev) [])"

section \<open>conflict_view\<close>

text \<open>One entry of the list the scan builds: the dictionary with the keys
  \<^verbatim>\<open>resource\<close>, \<^verbatim>\<open>event1\<close> and \<^verbatim>\<open>event2\<close>.\<close>

record conflict =
  c_resource :: string
  event1 :: event
  event2 :: event

text \<open>
  One entry of the report's \<^verbatim>\<open>report_data\<close>: the dictionary with the keys
  \<^verbatim>\<open>resource\<close>, \<^verbatim>\<open>total_hours\<close> and \<^verbatim>\<open>upcoming\<close>. The type parameter is the
  type of the report's floating-point numbers.
\<close>

record 'f report_row =
  row_resource :: resource
  total_hours :: 'f
  upcoming :: "event list"

text \<open>
  What a route returns: the messages it flashed (text and category) and its response, a
  redirect to an endpoint (with the event id \<^verbatim>\<open>url_for\<close> was given, if any) or a
  template with the values it was rendered with.
\<close>

datatype 'f response =
    Redirect string "int option"
  | EventForm string "resource list" "event option" "int list"
  | ConflictsPage "conflict list"
  | ReportPage "resource list" "'f report_row list" "(resource \<times> event) list"
      "string option" "string option"

record 'f outcome =
  flashed :: "(string \<times> string) list"
  response :: "'f response"

text \<open>The body of the loop over \<open>j\<close>, for the allocations at the indices \<open>i\<close> and \<open>j\<close>.\<close>

definition compare_pair ::
  "allocation list \<Rightarrow> nat \<Rightarrow> nat \<Rightarrow> conflict list \<Rightarrow> conflict list action" where
  "compare_pair allocs i j conflicts =
     (let a1 = allocs ! i; a2 = allocs ! j in
      if alloc_resource_id a1 \<noteq> alloc_resource_id a2 then succeed conflicts
      else and_then (rel_event a1) (\<lambda>loaded1. and_then (rel_event a2) (\<lambda>loaded2.
           and_then (attr loaded1) (\<lambda>e1. and_then (attr loaded2) (\<lambda>e2.
             if overlaps (start_time e1) (end_time e1) (start_time e2) (end_time e2)
             then and_then (rel_resource a1) (\<lambda>loaded_r. and_then (attr loaded_r) (\<lambda>r.
                    succeed (conflicts @
                      [\<lparr>c_resource = resource_name r, event1 = e1, event2 = e2\<rparr>])))
             else succeed conflicts)))))"



section \<open>The Python runtime\<close>

text \<open>
  What the routes take from the Python library and from the machine is a parameter of
  the model: \<^verbatim>\<open>datetime.strptime\<close> and \<^verbatim>\<open>int\<close> (\<open>None\<close> where they
  raise \<^verbatim>\<open>ValueError\<close>), the clock (\<open>now k\<close> is what the \<open>k\<close>-th call of
  \<^verbatim>\<open>datetime.now()\<close> in a request returns, counting from 0), and the floating-point
  arithmetic of the report: \<^verbatim>\<open>0.0\<close>, \<^verbatim>\<open>+\<close>,
  \<^verbatim>\<open>td.total_seconds() / 3600.0\<close> and \<^verbatim>\<open>round(x, 2)\<close>.
\<close>

record 'f env =
  strptime :: "string \<Rightarrow> string \<Rightarrow> datetime option"
  int_of_str :: "string \<Rightarrow> int option"
  now :: "nat \<Rightarrow> datetime"
  float_zero :: 'f
  float_add :: "'f \<Rightarrow> 'f \<Rightarrow> 'f"
  hours_of :: "timedelta \<Rightarrow> 'f"
  round2 :: "'f \<Rightarrow> 'f"

text \<open>
  A request: its method and its form, a multi-dictionary. \<^verbatim>\<open>form.get\<close> returns the
  first value of a key, \<^verbatim>\<open>form.getlist\<close> all of them.
\<close>

datatype http_method = GET | POST

record request =
  req_method :: http_method
  form :: "(string \<times> string) list"

definition form_get :: "request \<Rightarrow> string \<Rightarrow> string option" where
  "form_get req k = map_of (form req) k"

definition form_getlist :: "request \<Rightarrow> string \<Rightarrow> string list" where
  "form_getlist req k = map snd (filter (\<lambda>kv. fst kv = k) (form req))"

text \<open>\<^verbatim>\<open>not value\<close> holds of \<^verbatim>\<open>None\<close> and of the empty string: \<open>given\<close> keeps the others.\<close>

definition given :: "string option \<Rightarrow> string option" where
  "given v = (case v of None \<Rightarrow> None | Some s \<Rightarrow> if s = [] then None else Some s)"

definition parse_datetime_from_form :: "'f env \<Rightarrow> request \<Rightarrow> string \<Rightarrow> datetime option action" where
  "parse_datetime_from_form env req field_name =
     (case given (form_get req field_name) of
        None \<Rightarrow> succeed None
      | Some v \<Rightarrow>
          (case strptime env v ''%Y-%m-%dT%H:%M'' of
             None \<Rightarrow> throw ValueError
           | Some t \<Rightarrow> succeed (Some t)))"

section \<open>utilisation_report\<close>

text \<open>
  The body of the loop over a resource's allocations. Its state is
  \<^verbatim>\<open>total_hours\<close>, \<^verbatim>\<open>resource_upcoming\<close> and the number of times the request
  has read the clock.
\<close>

definition report_alloc ::
  "'f env \<Rightarrow> datetime \<Rightarrow> datetime \<Rightarrow> allocation \<Rightarrow> 'f \<times> event list \<times> nat \<Rightarrow>
     ('f \<times> event list \<times> nat) action" where
  "report_alloc env start_date end_date alloc st =
     (case st of (tot, resource_upcoming, k) \<Rightarrow>
        and_then (rel_event alloc) (\<lambda>loaded. and_then (attr loaded) (\<lambda>ev.
          if start_time ev \<le> end_date \<and> end_time ev \<ge> start_date then
            (let overlap_start = max (start_time ev) start_date;
                 overlap_end = min (end_time ev) end_date;
                 tot' = (if overlap_start < overlap_end
                           then float_add env tot (hours_of env (dt_sub overlap_end overlap_start))
                           else tot)
             in if start_time ev \<ge> now env k
                then succeed (tot', resource_upcoming @ [ev], Suc k)
                else succeed (tot', resource_upcoming, Suc k))
          else succeed (tot, resource_upcoming, k))))"

text \<open>The body of the loop over the resources. Its state is \<^verbatim>\<open>report_data\<close> and the
  number of times the request has read the clock.\<close>

definition report_resource ::
  "'f env \<Rightarrow> datetime \<Rightarrow> datetime \<Rightarrow> resource \<Rightarrow> 'f report_row list \<times> nat \<Rightarrow>
     ('f report_row list \<times> nat) action" where
  "report_resource env start_date end_date r st =
     (case st of (report_data, k) \<Rightarrow>
        and_then (rel_allocations r) (\<lambda>allocs.
        and_then (for_each allocs (report_alloc env start_date end_date) (float_zero env, [], k))
          (\<lambda>res. case res of (tot, resource_upcoming, k') \<Rightarrow>
             succeed (report_data @
               [\<lparr>row_resource = r, total_hours = round2 env tot,
                 upcoming = sort_key start_time resource_upcoming\<rparr>], k'))))"

definition flatten_upcoming :: "'f report_row list \<Rightarrow> (resource \<times> event) list" where
  "flatten_upcoming report_data =
     concat (map (\<lambda>r. map (\<lambda>ev. (row_resource r, ev)) (upcoming r)) report_data)"

definition utilisation_report :: "'f env \<Rightarrow> request \<Rightarrow> 'f outcome action" where
  "utilisation_report env req =
     and_then query_resources_all (\<lambda>rs.
       if req_method req = POST then
         (let start_str = form_get req ''start_date''; end_str = form_get req ''end_date'' in
          case (given start_str, given end_str) of
            (Some s, Some e) \<Rightarrow>
              (case strptime env s ''%Y-%m-%d'' of
                 None \<Rightarrow> throw ValueError
               | Some start_date \<Rightarrow>
                  (case strptime env e ''%Y-%m-%d'' of
                     None \<Rightarrow> throw ValueError
                   | Some end_parsed \<Rightarrow>
                      (let end_date = combine (date_of end_parsed) max_time in
                       and_then (for_each rs (report_resource env start_date end_date) ([], 0))
                         (\<lambda>res. case res of (report_data, k) \<Rightarrow>
                            succeed \<lparr>flashed = [],
                              response = ReportPage rs report_data (flatten_upcoming report_data)
                                           start_str end_str\<rparr>))))
          | _ \<Rightarrow>
              succeed \<lparr>flashed = [(''Start date and end date are required.'', ''danger'')],
                response = ReportPage rs [] [] start_str end_str\<rparr>)
       else succeed \<lparr>flashed = [], response = ReportPage rs [] [] None None\<rparr>)"

section \<open>add_event and edit_event\<close>

text \<open>
  The writes. A new row takes the next integer primary key: 1 in an empty table, one
  more than the largest key otherwise.
\<close>

definition next_id :: "int list \<Rightarrow> int" where
  "next_id ids = (if ids = [] then 1 else Max (set ids) + 1)"

text \<open>\<^verbatim>\<open>db.session.add(event)\<close> and \<^verbatim>\<open>db.session.flush()\<close>: the event gets its
  \<^verbatim>\<open>event_id\<close>.\<close>

definition session_add_event :: "event \<Rightarrow> event action" where
  "session_add_event ev =
     (\<lambda>d. let ev' = ev\<lparr>event_id := Some (next_id (List.map_filter event_id (events d)))\<rparr>
          in (Inr ev', d\<lparr>events := events d @ [ev']\<rparr>))"

text \<open>\<^verbatim>\<open>db.session.add(EventResourceAllocation(event_id=..., resource_id=rid))\<close>. Both
  columns are not nullable.\<close>

definition session_add_allocation :: "int option \<Rightarrow> int \<Rightarrow> unit action" where
  "session_add_allocation eid rid =
     (case eid of
        None \<Rightarrow> throw IntegrityError
      | Some e \<Rightarrow>
          (\<lambda>d. (Inr (),
             d\<lparr>allocations := allocations d @
                 [\<lparr>allocation_id = next_id (map allocation_id (allocations d)),
                   alloc_event_id = e, alloc_resource_id = rid\<rparr>]\<rparr>)))"



text \<open>\<^verbatim>\<open>event.allocations\<close>.\<close>

definition rel_event_allocations :: "event \<Rightarrow> allocation list action" where
  "rel_event_allocations ev =
     (\<lambda>d. (Inr (filter (\<lambda>a. Some (alloc_event_id a) = event_id ev) (allocations d)), d))"

text \<open>\<^verbatim>\<open>[int(rid) for rid in ...]\<close>: the first string that is no integer raises.\<close>

definition int_list :: "'f env \<Rightarrow> string list \<Rightarrow> int list action" where
  "int_list env xs =
     (case those (map (int_of_str env) xs) of
        None \<Rightarrow> throw ValueError
      | Some ids \<Rightarrow> succeed ids)"

definition add_event :: "'f env \<Rightarrow> request \<Rightarrow> 'f outcome action" where
  "add_event env req =
     and_then query_resources_all (\<lambda>rs.
       if req_method req = POST then
         (let title' = form_get req ''title''; description' = form_get req ''description'' in
          and_then (parse_datetime_from_form env req ''start_time'') (\<lambda>start_time'.
          and_then (parse_datetime_from_form env req ''end_time'') (\<lambda>end_time'.
          let selected_resource_ids = form_getlist req ''resources'' in
          case (given title', start_time', end_time') of
            (Some t, Some s, Some e) \<Rightarrow>
              (let ev = \<lparr>event_id = None, title = t, start_time = s, end_time = e,
                          description = description'\<rparr> in
               and_then (int_list env selected_resource_ids) (\<lambda>resource_ids.
               and_then (check_conflicts ev resource_ids) (\<lambda>conflicts.
                 if conflicts \<noteq> [] then
                   succeed \<lparr>flashed = map (\<lambda>c. (c, ''danger'')) conflicts,
                     response = EventForm ''Add'' rs (Some ev) resource_ids\<rparr>
                 else
                   and_then (session_add_event ev) (\<lambda>saved.
                   and_then (for_each resource_ids
                               (\<lambda>rid u. session_add_allocation (event_id saved) rid) ()) (\<lambda>u.
                     succeed \<lparr>flashed = [(''Event added successfully!'', ''success'')],
                       response = Redirect ''list_events'' None\<rparr>)))))
          | _ \<Rightarrow>
              succeed \<lparr>flashed = [(''Title, start time, and end time are required.'', ''danger'')],
                response = Redirect ''add_event'' None\<rparr>)))
       else succeed \<lparr>flashed = [], response = EventForm ''Add'' rs None []\<rparr>)"





section \<open>Referential integrity\<close>

text \<open>Every allocation's foreign keys name a stored event and a stored resource.\<close>

definition events_resolve :: "db \<Rightarrow> bool" where
  "events_resolve d = list_all (\<lambda>a. event_of d a \<noteq> None) (allocations d)"


section \<open>A reference runtime\<close>

text \<open>
  The runtime the examples below run in. \<open>py_strptime\<close> is CPython's
  \<^verbatim>\<open>datetime.strptime\<close> for the two formats of the program, on ASCII input: the
  format becomes a regular expression (\<^verbatim>\<open>%Y\<close> is four digits; \<^verbatim>\<open>%m\<close> is
  \<^verbatim>\<open>1[0-2]|0[1-9]|[1-9]\<close>; \<^verbatim>\<open>%d\<close> is \<^verbatim>\<open>3[01]|[12]\\d|0[1-9]|[1-9]| [1-9]\<close>;
  \<^verbatim>\<open>%H\<close> is \<^verbatim>\<open>2[0-3]|[0-1]\\d|\\d\<close>; \<^verbatim>\<open>%M\<close> is \<^verbatim>\<open>[0-5]\\d|\\d\<close>; letters
  match in either case), the string is matched from its start, the first match in the
  order of the alternatives is taken, and \<^verbatim>\<open>ValueError\<close> is raised when there is
  no match, when the match does not reach the end of the string, or when the fields are
  no date. A matcher returns its matches in that order, each with the rest of the
  string.
\<close>

type_synonym 'a matcher = "string \<Rightarrow> ('a \<times> string) list"

definition is_digit :: "char \<Rightarrow> bool" where
  "is_digit c = (c \<in> set ''0123456789'')"

definition digit_value :: "char \<Rightarrow> int" where
  "digit_value c = int (length (takeWhile (\<lambda>x. x \<noteq> c) ''0123456789''))"

definition one_of :: "string \<Rightarrow> int matcher" where
  "one_of cs s =
     (case s of
        a # rest \<Rightarrow> if a \<in> set cs then [(digit_value a, rest)] else []
      | [] \<Rightarrow> [])"

definition two_of :: "string \<Rightarrow> string \<Rightarrow> int matcher" where
  "two_of cs1 cs2 s =
     (case s of
        a # b # rest \<Rightarrow>
          if a \<in> set cs1 \<and> b \<in> set cs2 then [(10 * digit_value a + digit_value b, rest)] else []
      | _ \<Rightarrow> [])"

definition literal :: "string \<Rightarrow> unit matcher" where
  "literal cs s = (case s of a # rest \<Rightarrow> if a \<in> set cs then [((), rest)] else [] | [] \<Rightarrow> [])"

definition yield :: "'a \<Rightarrow> 'a matcher" where
  "yield v s = [(v, s)]"

definition seq :: "'a matcher \<Rightarrow> ('a \<Rightarrow> 'b matcher) \<Rightarrow> 'b matcher" where
  "seq p f s = concat (map (\<lambda>m. f (fst m) (snd m)) (p s))"

definition re_Y :: "int matcher" where
  "re_Y s =
     (case s of
        a # b # c # d # rest \<Rightarrow>
          if is_digit a \<and> is_digit b \<and> is_digit c \<and> is_digit d
          then [(1000 * digit_value a + 100 * digit_value b + 10 * digit_value c + digit_value d, rest)]
          else []
      | _ \<Rightarrow> [])"

definition re_m :: "int matcher" where
  "re_m s = two_of ''1'' ''012'' s @ two_of ''0'' ''123456789'' s @ one_of ''123456789'' s"

definition re_d :: "int matcher" where
  "re_d s =
     two_of ''3'' ''01'' s @ two_of ''12'' ''0123456789'' s @ two_of ''0'' ''123456789'' s @
     one_of ''123456789'' s @ seq (literal '' '') (\<lambda>u. one_of ''123456789'') s"

definition re_H :: "int matcher" where
  "re_H s = two_of ''2'' ''0123'' s @ two_of ''01'' ''0123456789'' s @ one_of ''0123456789'' s"

definition re_M :: "int matcher" where
  "re_M s = two_of ''012345'' ''0123456789'' s @ one_of ''0123456789'' s"

definition re_date :: "date matcher" where
  "re_date =
     seq re_Y (\<lambda>y. seq (literal ''-'') (\<lambda>u1. seq re_m (\<lambda>m. seq (literal ''-'') (\<lambda>u2.
     seq re_d (\<lambda>d. yield (y, m, d))))))"

definition re_minutes :: "datetime matcher" where
  "re_minutes =
     seq re_date (\<lambda>dt. seq (literal ''Tt'') (\<lambda>u1. seq re_H (\<lambda>hh. seq (literal '':'') (\<lambda>u2.
     seq re_M (\<lambda>mm. yield (combine dt (hh, mm, 0, 0)))))))"

definition first_match :: "datetime matcher \<Rightarrow> string \<Rightarrow> datetime option" where
  "first_match p s =
     (case p s of
        [] \<Rightarrow> None
      | m # others \<Rightarrow> if snd m = [] \<and> valid_datetime (fst m) then Some (fst m) else None)"

definition py_strptime :: "string \<Rightarrow> string \<Rightarrow> datetime option" where
  "py_strptime v fmt =
     (if fmt = ''%Y-%m-%dT%H:%M'' then first_match re_minutes v
      else if fmt = ''%Y-%m-%d'' then first_match (seq re_date (\<lambda>dt. yield (combine dt (0, 0, 0, 0)))) v
      else None)"

text \<open>
  \<open>py_int\<close> is \<^verbatim>\<open>int\<close> on an ASCII string: white space around, a sign, then
  decimal digits, single underscores allowed between two digits.
\<close>

definition is_space :: "char \<Rightarrow> bool" where
  "is_space c =
     (c \<in> set [CHR '' '', CHR 0x09, CHR 0x0A, CHR 0x0B, CHR 0x0C, CHR 0x0D,
               CHR 0x1C, CHR 0x1D, CHR 0x1E, CHR 0x1F])"

definition strip :: "string \<Rightarrow> string" where
  "strip s = rev (dropWhile is_space (rev (dropWhile is_space s)))"

fun digit_run :: "string \<Rightarrow> int \<Rightarrow> int option" where
  "digit_run [] acc = Some acc"
| "digit_run (c # cs) acc =
     (if is_digit c then digit_run cs (10 * acc + digit_value c)
      else if c = CHR ''_'' then
        (case cs of
           d # ds \<Rightarrow> if is_digit d then digit_run cs acc else None
         | [] \<Rightarrow> None)
      else None)"

definition unsigned :: "string \<Rightarrow> int option" where
  "unsigned s = (case s of c # cs \<Rightarrow> if is_digit c then digit_run s 0 else None | [] \<Rightarrow> None)"

definition py_int :: "string \<Rightarrow> int option" where
  "py_int s =
     (case strip s of
        [] \<Rightarrow> None
      | c # cs \<Rightarrow>
          if c = CHR ''-'' then map_option uminus (unsigned cs)
          else if c = CHR ''+'' then unsigned cs
          else unsigned (c # cs))"

text \<open>
  The floating-point numbers are taken as the rational numbers they stand for, and
  \<^verbatim>\<open>round(x, 2)\<close> as rounding to the nearest hundredth, a tie going to the even one.
\<close>

definition round_half_even :: "rat \<Rightarrow> int" where
  "round_half_even q =
     (let f = \<lfloor>q\<rfloor>; r = q - of_int f in
      if r < 1 / 2 then f else if 1 / 2 < r then f + 1 else if even f then f else f + 1)"

definition py_env :: "(nat \<Rightarrow> datetime) \<Rightarrow> rat env" where
  "py_env clock =
     \<lparr>strptime = py_strptime, int_of_str = py_int, now = clock,
      float_zero = 0, float_add = (+),
      hours_of = (\<lambda>td. of_int td / 3600000000),
      round2 = (\<lambda>x. of_int (round_half_even (x * 100)) / 100)\<rparr>"

section \<open>What the loops compute\<close>




text \<open>
  For the report: the events of a resource's allocations, in the order of the
  allocations; the test that puts an event in the window; the hours of an event inside
  the window; one step of the sum; and what the loops establish for the row of a
  resource.
\<close>

definition events_on :: "db \<Rightarrow> resource \<Rightarrow> event list" where
  "events_on d r = List.map_filter (event_of d) (allocations_on d (resource_id r))"

definition in_window :: "datetime \<Rightarrow> datetime \<Rightarrow> event \<Rightarrow> bool" where
  "in_window ws we ev = (start_time ev \<le> we \<and> end_time ev \<ge> ws)"

definition clipped_hours :: "'f env \<Rightarrow> datetime \<Rightarrow> datetime \<Rightarrow> event \<Rightarrow> 'f" where
  "clipped_hours env ws we ev =
     (if max (start_time ev) ws < min (end_time ev) we
      then hours_of env (dt_sub (min (end_time ev) we) (max (start_time ev) ws))
      else float_zero env)"

definition add_clipped :: "'f env \<Rightarrow> datetime \<Rightarrow> datetime \<Rightarrow> event \<Rightarrow> 'f \<Rightarrow> 'f" where
  "add_clipped env ws we ev t =
     (if max (start_time ev) ws < min (end_time ev) we
      then float_add env t (hours_of env (dt_sub (min (end_time ev) we) (max (start_time ev) ws)))
      else t)"

definition row_for :: "'f env \<Rightarrow> datetime \<Rightarrow> datetime \<Rightarrow> db \<Rightarrow> resource \<Rightarrow> 'f report_row \<Rightarrow> bool" where
  "row_for env ws we d r row =
     (row_resource row = r \<and>
      total_hours row =
        round2 env
          (fold (add_clipped env ws we)
             (filter (in_window ws we) (events_on d r)) (float_zero env)) \<and>
      (\<exists>up'. upcoming row = sort_key start_time up' \<and>
         mset up' \<subseteq># mset (filter (in_window ws we) (events_on d r)) \<and>
         (\<forall>T. (\<forall>n. now env n \<le> T) \<longrightarrow>
            mset (filter (\<lambda>ev. T \<le> start_time ev) (filter (in_window ws we) (events_on d r))) \<subseteq># mset up') \<and>
         (\<forall>T. (\<forall>n. T \<le> now env n) \<longrightarrow>
            mset up' \<subseteq># mset (filter (\<lambda>ev. T \<le> start_time ev) (filter (in_window ws we) (events_on d r))))))"






section \<open>Example data\<close>

text \<open>
  One room and three events booked on it on 2025-01-01: 09:00 to 10:00, 10:00 to 11:00 and
  10:30 to 12:00. The event \<open>sync\<close> is a candidate that was never saved,
  \<open>moved_standup\<close> the first event with a new range. In \<open>own_db\<close> the room is booked
  by the first event only, in \<open>dup_db\<close> it is booked twice by it.
\<close>

definition room :: resource where
  "room = \<lparr>resource_id = 1, resource_name = ''Room A'', resource_type = ''room''\<rparr>"

definition standup :: event where
  "standup = \<lparr>event_id = Some 5, title = ''Standup'', start_time = (2025, 1, 1, 9, 0, 0, 0),
     end_time = (2025, 1, 1, 10, 0, 0, 0), description = None\<rparr>"

definition review :: event where
  "review = \<lparr>event_id = Some 6, title = ''Review'', start_time = (2025, 1, 1, 10, 0, 0, 0),
     end_time = (2025, 1, 1, 11, 0, 0, 0), description = None\<rparr>"

definition workshop :: event where
  "workshop = \<lparr>event_id = Some 7, title = ''Workshop'', start_time = (2025, 1, 1, 10, 30, 0, 0),
     end_time = (2025, 1, 1, 12, 0, 0, 0), description = None\<rparr>"

definition sample_db :: db where
  "sample_db =
     \<lparr>events = [standup, review, workshop], resources = [room],
      allocations =
        [\<lparr>allocation_id = 1, alloc_event_id = 5, alloc_resource_id = 1\<rparr>,
         \<lparr>allocation_id = 2, alloc_event_id = 6, alloc_resource_id = 1\<rparr>,
         \<lparr>allocation_id = 3, alloc_event_id = 7, alloc_resource_id = 1\<rparr>]\<rparr>"





text \<open>
  For the report: a clock that stands still, a second room, and three more events: two
  on 2025-01-01, one of them running into the next day, and one on 2025-06-01.
\<close>

definition at_time :: "datetime \<Rightarrow> nat \<Rightarrow> datetime" where
  "at_time t n = t"

definition hall :: resource where
  "hall = \<lparr>resource_id = 2, resource_name = ''Hall'', resource_type = ''room''\<rparr>"

definition training :: event where
  "training = \<lparr>event_id = Some 9, title = ''Training'', start_time = (2025, 1, 1, 10, 0, 0, 0),
     end_time = (2025, 1, 1, 14, 0, 0, 0), description = None\<rparr>"

definition night_shift :: event where
  "night_shift = \<lparr>event_id = Some 10, title = ''Night shift'', start_time = (2025, 1, 1, 22, 0, 0, 0),
     end_time = (2025, 1, 2, 2, 0, 0, 0), description = None\<rparr>"

definition offsite :: event where
  "offsite = \<lparr>event_id = Some 11, title = ''Offsite'', start_time = (2025, 6, 1, 10, 0, 0, 0),
     end_time = (2025, 6, 1, 12, 0, 0, 0), description = None\<rparr>"

definition report_db :: db where
  "report_db =
     \<lparr>events = [training, night_shift, offsite], resources = [room, hall],
      allocations =
        [\<lparr>allocation_id = 1, alloc_event_id = 9, alloc_resource_id = 1\<rparr>,
         \<lparr>allocation_id = 2, alloc_event_id = 10, alloc_resource_id = 2\<rparr>,
         \<lparr>allocation_id = 3, alloc_event_id = 11, alloc_resource_id = 2\<rparr>]\<rparr>"

definition new_year_report :: request where
  "new_year_report =
     \<lparr>req_method = POST, form = [(''start_date'', ''2025-01-01''), (''end_date'', ''2025-01-01'')]\<rparr>"

text \<open>
  For the routes: the form of a booking named Kickoff, the form of a report, a database
  with the room and nothing else, the saved Kickoff on 2025-03-01 from 09:00 to 10:00, and
  a clock standing at 08:00 on 2025-01-01.
\<close>

definition booking_request :: "string \<Rightarrow> string \<Rightarrow> string list \<Rightarrow> request" where
  "booking_request start_str end_str rs =
     \<lparr>req_method = POST,
      form = [(''title'', ''Kickoff''), (''start_time'', start_str), (''end_time'', end_str)] @
             map (Pair ''resources'') rs\<rparr>"


definition room_db :: db where
  "room_db = \<lparr>events = [], resources = [room], allocations = []\<rparr>"

definition kickoff :: "int \<Rightarrow> event" where
  "kickoff n = \<lparr>event_id = Some n, title = ''Kickoff'', start_time = (2025, 3, 1, 9, 0, 0, 0),
     end_time = (2025, 3, 1, 10, 0, 0, 0), description = None\<rparr>"

definition morning :: "nat \<Rightarrow> datetime" where
  "morning = at_time (2025, 1, 1, 8, 0, 0, 0)"


declare digits.simps [simp del]

section \<open>Loops\<close>

lemma and_then_succeed [simp]: "and_then (succeed x) f = f x"
  by (simp add: and_then_def succeed_def)


lemma for_each_frame:
  assumes "\<And>x s d. snd (body x s d) = d"
  shows "snd (for_each xs body s d) = d"
proof (induction xs arbitrary: s)
  case Nil
  show ?case by (simp add: succeed_def)
next
  case (Cons x xs)
  obtain r where r: "body x s d = (r, d)"
    using assms [of x s d] by (cases "body x s d") simp
  show ?case
    using Cons.IH by (cases r) (simp_all add: and_then_def r)
qed




lemma check_alloc_eq:
  "check_alloc ev a cs d =
     (case event_of d a of
        None \<Rightarrow> (Inl AttributeError, d)
      | Some other \<Rightarrow>
          if event_id other = event_id ev then (Inr cs, d)
          else if overlaps (start_time ev) (end_time ev) (start_time other) (end_time other)
          then (case resource_of d a of
                  None \<Rightarrow> (Inl AttributeError, d)
                | Some r \<Rightarrow> (Inr (cs @ [conflict_message r other]), d))
          else (Inr cs, d))"
  by (simp add: check_alloc_def and_then_def rel_event_def rel_resource_def attr_def
      succeed_def throw_def split: option.splits)

lemma check_resource_eq:
  "check_resource ev rid cs d = for_each (allocations_on d rid) (check_alloc ev) cs d"
  by (simp add: check_resource_def and_then_def query_allocations_filter_by_resource_def)

lemma check_alloc_frame: "snd (check_alloc ev a cs d) = d"
  by (simp add: check_alloc_eq split: option.splits)

lemma check_resource_frame: "snd (check_resource ev rid cs d) = d"
  by (simp add: check_resource_eq for_each_frame check_alloc_frame)

section \<open>Properties of check_conflicts\<close>

lemma fold_keep [simp]: "fold (\<lambda>x acc. acc) xs acc = acc"
  by (induction xs) simp_all










section \<open>Properties of conflict_view\<close>

lemma compare_pair_eq:
  "compare_pair allocs i j cs d =
     (if alloc_resource_id (allocs ! i) \<noteq> alloc_resource_id (allocs ! j) then (Inr cs, d)
      else case event_of d (allocs ! i) of
        None \<Rightarrow> (Inl AttributeError, d)
      | Some e1 \<Rightarrow>
         (case event_of d (allocs ! j) of
            None \<Rightarrow> (Inl AttributeError, d)
          | Some e2 \<Rightarrow>
             if overlaps (start_time e1) (end_time e1) (start_time e2) (end_time e2)
             then (case resource_of d (allocs ! i) of
                     None \<Rightarrow> (Inl AttributeError, d)
                   | Some r \<Rightarrow>
                      (Inr (cs @ [\<lparr>c_resource = resource_name r, event1 = e1, event2 = e2\<rparr>]), d))
             else (Inr cs, d)))"
  by (simp add: compare_pair_def Let_def and_then_def rel_event_def rel_resource_def attr_def
      succeed_def throw_def split: option.splits)

lemma compare_pair_frame: "snd (compare_pair allocs i j cs d) = d"
  by (simp add: compare_pair_eq split: option.splits)











section \<open>Dates\<close>

lemma div_step:
  fixes y k :: int
  assumes "0 < k"
  shows "y div k = (y - 1) div k + (if y mod k = 0 then 1 else 0)"
proof (cases "y mod k = 0")
  case True
  have "y - 1 = k * (y div k - 1) + (k - 1)"
    using True by (simp add: algebra_simps) (metis mult.commute mult_div_mod_eq add.right_neutral)
  then have "(y - 1) div k = y div k - 1"
    using assms by (intro int_div_pos_eq [where r = "k - 1"]) simp_all
  then show ?thesis using True by simp
next
  case False
  have "0 \<le> y mod k" "y mod k < k" using assms by simp_all
  with False have "0 \<le> y mod k - 1" by simp
  moreover have "y - 1 = k * (y div k) + (y mod k - 1)"
    by (simp add: algebra_simps)
  ultimately have "(y - 1) div k = y div k"
    using \<open>y mod k < k\<close> by (intro int_div_pos_eq [where r = "y mod k - 1"]) simp_all
  then show ?thesis using False by simp
qed

lemma days_before_year_step:
  "days_before_year (y + 1) = days_before_year y + (if is_leap y then 366 else 365)"
proof -
  define q4 q100 q400 where "q4 = (y - 1) div 4" and "q100 = (y - 1) div 100"
    and "q400 = (y - 1) div 400"
  define r4 r100 r400 where "r4 = (y mod 4 = 0)" and "r100 = (y mod 100 = 0)"
    and "r400 = (y mod 400 = 0)"
  have "(4::int) dvd 100" "(100::int) dvd 400"
    by simp_all
  then have m: "r100 \<Longrightarrow> r4" "r400 \<Longrightarrow> r100"
    unfolding r4_def r100_def r400_def mod_eq_0_iff_dvd by (blast intro: dvd_trans)+
  have e: "y div 4 = q4 + (if r4 then 1 else 0)" "y div 100 = q100 + (if r100 then 1 else 0)"
    "y div 400 = q400 + (if r400 then 1 else 0)"
    unfolding q4_def q100_def q400_def r4_def r100_def r400_def
    by (rule div_step, simp)+
  have next_year: "days_before_year (y + 1) = y * 365 + y div 4 - y div 100 + y div 400"
    unfolding days_before_year_def Let_def by (simp only: add_diff_cancel_right')
  have this_year: "days_before_year y = (y - 1) * 365 + q4 - q100 + q400"
    unfolding days_before_year_def Let_def q4_def q100_def q400_def ..
  have leap: "is_leap y \<longleftrightarrow> r4 \<and> (\<not> r100 \<or> r400)"
    unfolding is_leap_def r4_def r100_def r400_def ..
  have "y * 365 + (q4 + (if r4 then 1 else 0)) - (q100 + (if r100 then 1 else 0)) + (q400 + (if r400 then 1 else 0))
       = (y - 1) * 365 + q4 - q100 + q400 + (if r4 \<and> (\<not> r100 \<or> r400) then 366 else 365)"
    using m by (cases r4; cases r100; cases r400; simp add: algebra_simps)
  then show ?thesis
    unfolding next_year this_year leap e .
qed

lemma days_before_year_mono: "y \<le> y' \<Longrightarrow> days_before_year y \<le> days_before_year y'"
proof (induction y' rule: int_ge_induct)
  case base
  show ?case by simp
next
  case (step i)
  then show ?case by (simp add: days_before_year_step)
qed

lemma days_in_month_pos: "28 \<le> days_in_month y m"
  by (simp add: days_in_month_def)

lemma days_before_month_step:
  "1 \<le> m \<Longrightarrow> days_before_month y (m + 1) = days_before_month y m + days_in_month y m"
  using upto_rec2 [of 1 m] by (simp add: days_before_month_def)

lemma days_before_month_mono:
  assumes "m \<le> m'" "1 \<le> m"
  shows "days_before_month y m \<le> days_before_month y m'"
  using assms
proof (induction m' rule: int_ge_induct)
  case base
  show ?case by simp
next
  case (step i)
  then show ?case
    using days_in_month_pos [of y i] by (simp add: days_before_month_step)
qed

lemma days_before_month_first: "days_before_month y 1 = 0"
  by (simp add: days_before_month_def)

lemma days_before_month_13: "days_before_month y 13 = (if is_leap y then 366 else 365)"
  by (simp add: days_before_month_def days_in_month_def upto.simps)

lemma toordinal_bounds:
  assumes "1 \<le> m" "m \<le> 12" "1 \<le> d" "d \<le> days_in_month y m"
  shows "days_before_year y < toordinal (y, m, d)"
    and "toordinal (y, m, d) \<le> days_before_year (y + 1)"
proof -
  have "0 \<le> days_before_month y m"
    using days_before_month_mono [of 1 m y] assms(1) by (simp add: days_before_month_first)
  then show "days_before_year y < toordinal (y, m, d)"
    using assms(3) by (simp add: toordinal_def)
  have "days_before_month y m + d \<le> days_before_month y (m + 1)"
    using assms(1,4) by (simp add: days_before_month_step)
  also have "\<dots> \<le> days_before_month y 13"
    using assms(1,2) by (intro days_before_month_mono) simp_all
  finally show "toordinal (y, m, d) \<le> days_before_year (y + 1)"
    by (simp add: toordinal_def days_before_month_13 days_before_year_step)
qed

lemma toordinal_mono:
  assumes "1 \<le> m" "m \<le> 12" "1 \<le> d" "d \<le> days_in_month y m"
    and "1 \<le> m'" "m' \<le> 12" "1 \<le> d'" "d' \<le> days_in_month y' m'"
    and "(y, m, d) < (y', m', d')"
  shows "toordinal (y, m, d) < toordinal (y', m', d')"
proof -
  consider "y < y'" | "y = y'" "m < m'" | "y = y'" "m = m'" "d < d'"
    using assms(9) unfolding less_prod_def' by auto
  then show ?thesis
  proof cases
    case 1
    have "toordinal (y, m, d) \<le> days_before_year (y + 1)"
      using assms(1-4) by (rule toordinal_bounds)
    also have "\<dots> \<le> days_before_year y'"
      using 1 by (intro days_before_year_mono) simp
    also have "\<dots> < toordinal (y', m', d')"
      using assms(5-8) by (rule toordinal_bounds)
    finally show ?thesis .
  next
    case 2
    have "days_before_month y m + d \<le> days_before_month y (m + 1)"
      using assms(1,4) by (simp add: days_before_month_step)
    also have "\<dots> \<le> days_before_month y m'"
      using 2 assms(1) by (intro days_before_month_mono) simp_all
    finally show ?thesis
      using 2 assms(7) by (simp add: toordinal_def)
  next
    case 3
    then show ?thesis by (simp add: toordinal_def)
  qed
qed

lemma radix_step:
  fixes a a' b b' k :: int
  assumes "0 \<le> b" "b < k" "0 \<le> b'" "b' < k" "a < a' \<or> a = a' \<and> b < b'"
  shows "a * k + b < a' * k + b'"
proof -
  from assms(5) show ?thesis
  proof
    assume "a < a'"
    then have "a + 1 \<le> a'" by simp
    then have "(a + 1) * k \<le> a' * k"
      using assms(1,2) by (intro mult_right_mono) simp_all
    then show ?thesis using assms(1-4) by (simp add: algebra_simps)
  next
    assume "a = a' \<and> b < b'"
    then show ?thesis by simp
  qed
qed

lemma radix_lex:
  fixes n n' hh hh' mm mm' ss ss' us us' :: int
  assumes "0 \<le> hh" "hh \<le> 23" "0 \<le> mm" "mm \<le> 59" "0 \<le> ss" "ss \<le> 59" "0 \<le> us" "us \<le> 999999"
    and "0 \<le> hh'" "hh' \<le> 23" "0 \<le> mm'" "mm' \<le> 59" "0 \<le> ss'" "ss' \<le> 59" "0 \<le> us'" "us' \<le> 999999"
    and "n < n' \<or> n = n' \<and> (hh, mm, ss, us) < (hh', mm', ss', us')"
  shows "(((n * 24 + hh) * 60 + mm) * 60 + ss) * 1000000 + us <
         (((n' * 24 + hh') * 60 + mm') * 60 + ss') * 1000000 + us'"
proof -
  have l1: "n * 24 + hh < n' * 24 + hh' \<or>
            n * 24 + hh = n' * 24 + hh' \<and> (mm, ss, us) < (mm', ss', us')"
    using assms(17) radix_step [of hh 24 hh' n n'] assms(1,2,9,10)
    unfolding less_prod_def' by auto
  have l2: "(n * 24 + hh) * 60 + mm < (n' * 24 + hh') * 60 + mm' \<or>
            (n * 24 + hh) * 60 + mm = (n' * 24 + hh') * 60 + mm' \<and> (ss, us) < (ss', us')"
    using l1 radix_step [of mm 60 mm' "n * 24 + hh" "n' * 24 + hh'"] assms(3,4,11,12)
    unfolding less_prod_def' by auto
  have l3: "((n * 24 + hh) * 60 + mm) * 60 + ss < ((n' * 24 + hh') * 60 + mm') * 60 + ss' \<or>
            ((n * 24 + hh) * 60 + mm) * 60 + ss = ((n' * 24 + hh') * 60 + mm') * 60 + ss' \<and> us < us'"
    using l2 radix_step [of ss 60 ss' "(n * 24 + hh) * 60 + mm" "(n' * 24 + hh') * 60 + mm'"]
      assms(5,6,13,14)
    unfolding less_prod_def' by auto
  show ?thesis
    using l3 assms(7,8,15,16)
    by (intro radix_step) simp_all
qed

lemma to_microseconds_mono:
  assumes "valid_datetime a" "valid_datetime b" "a < b"
  shows "to_microseconds a < to_microseconds b"
proof -
  obtain y m d hh mm ss us where a: "a = (y, m, d, hh, mm, ss, us)" by (cases a)
  obtain y' m' d' hh' mm' ss' us' where b: "b = (y', m', d', hh', mm', ss', us')" by (cases b)
  have va: "1 \<le> m" "m \<le> 12" "1 \<le> d" "d \<le> days_in_month y m"
    and ta: "0 \<le> hh" "hh \<le> 23" "0 \<le> mm" "mm \<le> 59" "0 \<le> ss" "ss \<le> 59" "0 \<le> us" "us \<le> 999999"
    using assms(1) by (simp_all add: a valid_datetime_def)
  have vb: "1 \<le> m'" "m' \<le> 12" "1 \<le> d'" "d' \<le> days_in_month y' m'"
    and tb: "0 \<le> hh'" "hh' \<le> 23" "0 \<le> mm'" "mm' \<le> 59" "0 \<le> ss'" "ss' \<le> 59" "0 \<le> us'" "us' \<le> 999999"
    using assms(2) by (simp_all add: b valid_datetime_def)
  have "(y, m, d) < (y', m', d') \<or>
        (y, m, d) = (y', m', d') \<and> (hh, mm, ss, us) < (hh', mm', ss', us')"
    using assms(3) unfolding a b less_prod_def' by auto
  then have "toordinal (y, m, d) < toordinal (y', m', d') \<or>
        toordinal (y, m, d) = toordinal (y', m', d') \<and> (hh, mm, ss, us) < (hh', mm', ss', us')"
    using toordinal_mono [OF va vb] by auto
  with ta tb show ?thesis
    unfolding a b to_microseconds_def prod.case by (intro radix_lex)
qed

lemma dt_sub_positive:
  assumes "valid_datetime a" "valid_datetime b"
  shows "a < b \<longleftrightarrow> 0 < dt_sub b a"
proof
  assume "a < b"
  then show "0 < dt_sub b a"
    using to_microseconds_mono [OF assms] by (simp add: dt_sub_def)
next
  assume pos: "0 < dt_sub b a"
  show "a < b"
  proof (rule ccontr)
    assume "\<not> a < b"
    then have "b < a \<or> b = a" by (simp add: not_less le_less)
    then show False
    proof
      assume "b < a"
      then show False
        using to_microseconds_mono [OF assms(2,1)] pos by (simp add: dt_sub_def)
    next
      assume "b = a"
      then show False using pos by (simp add: dt_sub_def)
    qed
  qed
qed

section \<open>Properties of utilisation_report\<close>

lemma report_alloc_eq:
  "report_alloc env ws we a (tot, up, k) d =
     (case event_of d a of
        None \<Rightarrow> (Inl AttributeError, d)
      | Some ev \<Rightarrow>
          if in_window ws we ev then
            (Inr (add_clipped env ws we ev tot,
                  if now env k \<le> start_time ev then up @ [ev] else up, Suc k), d)
          else (Inr (tot, up, k), d))"
  by (simp add: report_alloc_def and_then_def rel_event_def attr_def succeed_def throw_def
      Let_def in_window_def add_clipped_def split: option.splits)

lemma map_filter_Cons_Some: "f x = Some y \<Longrightarrow> List.map_filter f (x # xs) = y # List.map_filter f xs"
  by (simp add: List.map_filter_def)

lemma report_loop:
  assumes "\<forall>a \<in> set allocs. event_of d a \<noteq> None"
  shows "\<exists>up' k'.
           for_each allocs (report_alloc env ws we) (tot, up, k) d =
             (Inr (fold (add_clipped env ws we)
                     (filter (in_window ws we) (List.map_filter (event_of d) allocs)) tot,
                   up @ up', k'), d) \<and>
           mset up' \<subseteq># mset (filter (in_window ws we) (List.map_filter (event_of d) allocs)) \<and>
           (\<forall>T. (\<forall>n. now env n \<le> T) \<longrightarrow>
              mset (filter (\<lambda>ev. T \<le> start_time ev)
                     (filter (in_window ws we) (List.map_filter (event_of d) allocs))) \<subseteq># mset up') \<and>
           (\<forall>T. (\<forall>n. T \<le> now env n) \<longrightarrow>
              mset up' \<subseteq># mset (filter (\<lambda>ev. T \<le> start_time ev)
                     (filter (in_window ws we) (List.map_filter (event_of d) allocs))))"
  using assms
proof (induction allocs arbitrary: tot up k)
  case Nil
  show ?case by (simp add: succeed_def List.map_filter_def)
next
  case (Cons a allocs)
  then obtain ev where ev: "event_of d a = Some ev" by auto
  have rest: "\<forall>a \<in> set allocs. event_of d a \<noteq> None" using Cons.prems by simp
  show ?case
  proof (cases "in_window ws we ev")
    case False
    with Cons.IH [OF rest, of tot up k] show ?thesis
      by (simp add: and_then_def report_alloc_eq ev map_filter_Cons_Some)
  next
    case True
    let ?tot = "add_clipped env ws we ev tot"
    let ?new = "if now env k \<le> start_time ev then [ev] else []"
    let ?W = "filter (in_window ws we) (List.map_filter (event_of d) allocs)"
    from Cons.IH [OF rest, of ?tot "up @ ?new" "Suc k"]
    obtain up' k' where run: "for_each allocs (report_alloc env ws we) (?tot, up @ ?new, Suc k) d =
             (Inr (fold (add_clipped env ws we) ?W ?tot,
                   (up @ ?new) @ up', k'), d)"
      and sub: "mset up' \<subseteq># mset ?W"
      and late: "\<forall>T. (\<forall>n. now env n \<le> T) \<longrightarrow> mset (filter (\<lambda>ev. T \<le> start_time ev) ?W) \<subseteq># mset up'"
      and early: "\<forall>T. (\<forall>n. T \<le> now env n) \<longrightarrow> mset up' \<subseteq># mset (filter (\<lambda>ev. T \<le> start_time ev) ?W)"
      by blast
    have step: "report_alloc env ws we a (tot, up, k) d = (Inr (?tot, up @ ?new, Suc k), d)"
      using True by (simp add: report_alloc_eq ev)
    have W: "filter (in_window ws we) (List.map_filter (event_of d) (a # allocs)) = ev # ?W"
      using True by (simp add: map_filter_Cons_Some ev)
    show ?thesis
    proof (intro exI [of _ "?new @ up'"] exI [of _ k'] conjI allI impI)
      show "for_each (a # allocs) (report_alloc env ws we) (tot, up, k) d =
             (Inr (fold (add_clipped env ws we)
                     (filter (in_window ws we) (List.map_filter (event_of d) (a # allocs))) tot,
                   up @ ?new @ up', k'), d)"
        unfolding W using run by (simp add: and_then_def step)
      show "mset (?new @ up') \<subseteq># mset (filter (in_window ws we) (List.map_filter (event_of d) (a # allocs)))"
        unfolding W using sub by (auto intro: subset_mset.order_trans)
      show "mset (filter (\<lambda>ev. T \<le> start_time ev)
                     (filter (in_window ws we) (List.map_filter (event_of d) (a # allocs)))) \<subseteq># mset (?new @ up')"
        if "\<forall>n. now env n \<le> T" for T
      proof -
        have l: "mset (filter (\<lambda>ev. T \<le> start_time ev) ?W) \<subseteq># mset up'"
          using late that by blast
        show ?thesis
        proof (cases "T \<le> start_time ev")
          case True
          then have "now env k \<le> start_time ev"
            using that order_trans by blast
          then show ?thesis
            unfolding W using True l by simp
        next
          case False
          have "mset up' \<subseteq># mset (?new @ up')" by simp
          with l have "mset (filter (\<lambda>ev. T \<le> start_time ev) ?W) \<subseteq># mset (?new @ up')"
            by (rule subset_mset.order_trans)
          then show ?thesis
            unfolding W using False by simp
        qed
      qed
      show "mset (?new @ up') \<subseteq># mset (filter (\<lambda>ev. T \<le> start_time ev)
                     (filter (in_window ws we) (List.map_filter (event_of d) (a # allocs))))"
        if "\<forall>n. T \<le> now env n" for T
      proof -
        have e: "mset up' \<subseteq># mset (filter (\<lambda>ev. T \<le> start_time ev) ?W)"
          using early that by blast
        show ?thesis
        proof (cases "now env k \<le> start_time ev")
          case True
          then have "T \<le> start_time ev"
            using that order_trans by blast
          then show ?thesis
            unfolding W using True e by simp
        next
          case False
          have "mset (filter (\<lambda>ev. T \<le> start_time ev) ?W) \<subseteq>#
                  mset (filter (\<lambda>ev. T \<le> start_time ev) (ev # ?W))"
            by simp
          with e have "mset up' \<subseteq># mset (filter (\<lambda>ev. T \<le> start_time ev) (ev # ?W))"
            by (rule subset_mset.order_trans)
          then show ?thesis
            unfolding W using False by simp
        qed
      qed
    qed
  qed
qed

lemma report_resource_eq:
  assumes "events_resolve d"
  shows "\<exists>row k'. report_resource env ws we r (rd, k) d = (Inr (rd @ [row], k'), d) \<and>
           row_for env ws we d r row"
proof -
  have res: "\<forall>a \<in> set (allocations_on d (resource_id r)). event_of d a \<noteq> None"
    using assms by (simp add: events_resolve_def list_all_iff allocations_on_def)
  from report_loop [OF res, of env ws we "float_zero env" "[]" k]
  obtain up' k' where
    run: "for_each (allocations_on d (resource_id r)) (report_alloc env ws we) (float_zero env, [], k) d =
            (Inr (fold (add_clipped env ws we)
                     (filter (in_window ws we) (events_on d r)) (float_zero env), up', k'), d)"
    and ups: "mset up' \<subseteq># mset (filter (in_window ws we) (events_on d r))"
      "\<forall>T. (\<forall>n. now env n \<le> T) \<longrightarrow>
            mset (filter (\<lambda>ev. T \<le> start_time ev) (filter (in_window ws we) (events_on d r))) \<subseteq># mset up'"
      "\<forall>T. (\<forall>n. T \<le> now env n) \<longrightarrow>
            mset up' \<subseteq># mset (filter (\<lambda>ev. T \<le> start_time ev) (filter (in_window ws we) (events_on d r)))"
    unfolding events_on_def by auto
  let ?row = "\<lparr>row_resource = r,
      total_hours = round2 env
          (fold (add_clipped env ws we)
             (filter (in_window ws we) (events_on d r)) (float_zero env)),
      upcoming = sort_key start_time up'\<rparr>"
  have "report_resource env ws we r (rd, k) d = (Inr (rd @ [?row], k'), d)"
    by (simp add: report_resource_def and_then_def rel_allocations_def run succeed_def)
  moreover have "row_for env ws we d r ?row"
    unfolding row_for_def using ups by (intro conjI exI [of _ up']) simp_all
  ultimately show ?thesis by blast
qed

lemma report_rows:
  assumes "events_resolve d"
  shows "\<exists>rows k'. for_each rs (report_resource env ws we) (rd, k) d = (Inr (rd @ rows, k'), d) \<and>
           list_all2 (row_for env ws we d) rs rows"
proof (induction rs arbitrary: rd k)
  case Nil
  show ?case by (simp add: succeed_def)
next
  case (Cons r rs)
  from report_resource_eq [OF assms, of env ws we r rd k]
  obtain row k1 where step: "report_resource env ws we r (rd, k) d = (Inr (rd @ [row], k1), d)"
    and row: "row_for env ws we d r row" by blast
  from Cons.IH [of "rd @ [row]" k1]
  obtain rows k' where rest: "for_each rs (report_resource env ws we) (rd @ [row], k1) d =
      (Inr ((rd @ [row]) @ rows, k'), d)" and rows: "list_all2 (row_for env ws we d) rs rows"
    by blast
  have "for_each (r # rs) (report_resource env ws we) (rd, k) d = (Inr (rd @ row # rows, k'), d)"
    using rest by (simp add: and_then_def step)
  moreover have "list_all2 (row_for env ws we d) (r # rs) (row # rows)"
    using row rows by simp
  ultimately show ?case by blast
qed

lemma utilisation_report_eq:
  assumes "events_resolve d" and "req_method req = POST"
    and "given (form_get req ''start_date'') = Some s"
    and "given (form_get req ''end_date'') = Some e"
    and "strptime env s ''%Y-%m-%d'' = Some start_date"
    and "strptime env e ''%Y-%m-%d'' = Some end_parsed"
  shows "\<exists>rows. utilisation_report env req d =
           (Inr \<lparr>flashed = [],
                 response = ReportPage (resources d) rows (flatten_upcoming rows)
                              (form_get req ''start_date'') (form_get req ''end_date'')\<rparr>, d) \<and>
           list_all2 (row_for env start_date (combine (date_of end_parsed) max_time) d) (resources d) rows"
proof -
  from report_rows [OF assms(1), of "resources d" env start_date "combine (date_of end_parsed) max_time" "[]" 0]
  obtain rows k' where
    run: "for_each (resources d) (report_resource env start_date (combine (date_of end_parsed) max_time)) ([], 0) d =
            (Inr (rows, k'), d)"
    and rows: "list_all2 (row_for env start_date (combine (date_of end_parsed) max_time) d) (resources d) rows"
    by auto
  have "utilisation_report env req d =
           (Inr \<lparr>flashed = [],
                 response = ReportPage (resources d) rows (flatten_upcoming rows)
                              (form_get req ''start_date'') (form_get req ''end_date'')\<rparr>, d)"
    using assms(2-6) run
    by (simp add: utilisation_report_def and_then_def query_resources_all_def Let_def succeed_def)
  with rows show ?thesis by blast
qed

lemma fold_add_clipped:
  assumes "\<forall>x. float_add env x (float_zero env) = x"
  shows "fold (add_clipped env ws we) evs t =
           foldl (float_add env) t (map (clipped_hours env ws we) evs)"
  by (induction evs arbitrary: t) (simp_all add: add_clipped_def clipped_hours_def assms)

lemma rows_totals:
  assumes "list_all2 (row_for env ws we d) rs rows"
    and "\<forall>x. float_add env x (float_zero env) = x"
  shows "map row_resource rows = rs \<and>
         map total_hours rows =
           map (\<lambda>r. round2 env (foldl (float_add env) (float_zero env)
                  (map (clipped_hours env ws we) (filter (in_window ws we) (events_on d r))))) rs"
  using assms(1)
  by (induction rule: list_all2_induct) (simp_all add: row_for_def fold_add_clipped [OF assms(2)])

lemma day_bounds:
  assumes "valid_datetime t" "date_of t = (y, m, dd)"
  shows "(y, m, dd, 0, 0, 0, 0) \<le> t \<and> t \<le> combine (y, m, dd) max_time"
  using assms
  by (cases t) (auto simp: valid_datetime_def date_of_def combine_def max_time_def)

lemma events_on_all:
  assumes "events_resolve d"
  shows "map Some (events_on d r) = map (event_of d) (allocations_on d (resource_id r))"
proof -
  have "\<forall>a \<in> set xs. event_of d a \<noteq> None \<Longrightarrow>
          map Some (List.map_filter (event_of d) xs) = map (event_of d) xs" for xs
    by (induction xs) (auto simp: List.map_filter_def)
  then show ?thesis
    using assms by (simp add: events_on_def events_resolve_def list_all_iff allocations_on_def)
qed

lemma rows_upcoming:
  assumes "list_all2 (row_for env ws we d) rs rows"
  shows "list_all2 (\<lambda>r row.
           row_resource row = r \<and>
           sorted (map start_time (upcoming row)) \<and>
           mset (upcoming row) \<subseteq># mset (filter (in_window ws we) (events_on d r)) \<and>
           (\<forall>T. (\<forall>n. now env n \<le> T) \<longrightarrow>
              mset (filter (\<lambda>ev. T \<le> start_time ev) (filter (in_window ws we) (events_on d r)))
                \<subseteq># mset (upcoming row)) \<and>
           (\<forall>T. (\<forall>n. T \<le> now env n) \<longrightarrow>
              mset (upcoming row) \<subseteq>#
                mset (filter (\<lambda>ev. T \<le> start_time ev) (filter (in_window ws we) (events_on d r)))))
         rs rows"
  using assms
proof (rule list_all2_mono)
  fix r row
  assume "row_for env ws we d r row"
  then obtain up' where r: "row_resource row = r" and u: "upcoming row = sort_key start_time up'"
    and a: "mset up' \<subseteq># mset (filter (in_window ws we) (events_on d r))"
    and b: "\<forall>T. (\<forall>n. now env n \<le> T) \<longrightarrow>
            mset (filter (\<lambda>ev. T \<le> start_time ev) (filter (in_window ws we) (events_on d r))) \<subseteq># mset up'"
    and c: "\<forall>T. (\<forall>n. T \<le> now env n) \<longrightarrow>
            mset up' \<subseteq># mset (filter (\<lambda>ev. T \<le> start_time ev) (filter (in_window ws we) (events_on d r)))"
    unfolding row_for_def by blast
  show "row_resource row = r \<and>
           sorted (map start_time (upcoming row)) \<and>
           mset (upcoming row) \<subseteq># mset (filter (in_window ws we) (events_on d r)) \<and>
           (\<forall>T. (\<forall>n. now env n \<le> T) \<longrightarrow>
              mset (filter (\<lambda>ev. T \<le> start_time ev) (filter (in_window ws we) (events_on d r)))
                \<subseteq># mset (upcoming row)) \<and>
           (\<forall>T. (\<forall>n. T \<le> now env n) \<longrightarrow>
              mset (upcoming row) \<subseteq>#
                mset (filter (\<lambda>ev. T \<le> start_time ev) (filter (in_window ws we) (events_on d r))))"
    unfolding u mset_sort using r a b c by (intro conjI sorted_sort_key) simp_all
qed

section \<open>Properties of the routes\<close>

lemma parse_datetime_eq:
  "parse_datetime_from_form env req f d =
     (case given (form_get req f) of
        None \<Rightarrow> (Inr None, d)
      | Some v \<Rightarrow>
          (case strptime env v ''%Y-%m-%dT%H:%M'' of
             None \<Rightarrow> (Inl ValueError, d)
           | Some t \<Rightarrow> (Inr (Some t), d)))"
  by (simp add: parse_datetime_from_form_def succeed_def throw_def split: option.splits)

lemma add_allocations:
  "\<exists>new. for_each ids (\<lambda>rid u. session_add_allocation (Some eid) rid) () d =
           (Inr (), d\<lparr>allocations := allocations d @ new\<rparr>) \<and>
         map alloc_resource_id new = ids \<and> (\<forall>a \<in> set new. alloc_event_id a = eid)"
proof (induction ids arbitrary: d)
  case Nil
  show ?case by (simp add: succeed_def)
next
  case (Cons rid ids)
  let ?a = "\<lparr>allocation_id = next_id (map allocation_id (allocations d)),
             alloc_event_id = eid, alloc_resource_id = rid\<rparr>"
  let ?d1 = "d\<lparr>allocations := allocations d @ [?a]\<rparr>"
  from Cons [of ?d1] obtain new where
    run: "for_each ids (\<lambda>rid u. session_add_allocation (Some eid) rid) () ?d1 =
           (Inr (), ?d1\<lparr>allocations := allocations ?d1 @ new\<rparr>)"
    and new: "map alloc_resource_id new = ids" "\<forall>a \<in> set new. alloc_event_id a = eid"
    by blast
  have "for_each (rid # ids) (\<lambda>rid u. session_add_allocation (Some eid) rid) () d =
           (Inr (), d\<lparr>allocations := allocations d @ (?a # new)\<rparr>)"
    using run by (simp add: and_then_def session_add_allocation_def)
  moreover have "map alloc_resource_id (?a # new) = rid # ids"
    "\<forall>a \<in> set (?a # new). alloc_event_id a = eid"
    using new by simp_all
  ultimately show ?case by (intro exI [of _ "?a # new"] conjI)
qed

lemma check_conflicts_run: "\<exists>r. check_conflicts ev ids d = (r, d)"
  using check_alloc_frame for_each_frame [of "check_resource ev" ids "[]" d] check_resource_frame
  by (cases "check_conflicts ev ids d")
    (auto simp: check_conflicts_def succeed_def split: if_splits)

lemma add_event_committed:
  assumes "add_event env req d =
             (Inr \<lparr>flashed = [(''Event added successfully!'', ''success'')], response = Redirect ''list_events'' None\<rparr>, d')"
  shows "\<exists>ids new.
           those (map (int_of_str env) (form_getlist req ''resources'')) = Some ids \<and>
           (\<exists>saved. events d' = events d @ [saved] \<and>
              event_id saved = Some (next_id (List.map_filter event_id (events d)))) \<and>
           resources d' = resources d \<and>
           allocations d' = allocations d @ new \<and>
           map alloc_resource_id new = ids \<and>
           (\<forall>a \<in> set new. alloc_event_id a = next_id (List.map_filter event_id (events d)))"
proof -
  have post: "req_method req = POST"
    using assms
    by (auto simp: add_event_def and_then_def query_resources_all_def succeed_def split: if_splits)
  obtain t where t: "given (form_get req ''title'') = Some t"
    and "\<exists>s. given (form_get req ''start_time'') = Some s \<and> strptime env s ''%Y-%m-%dT%H:%M'' \<noteq> None"
    and "\<exists>e. given (form_get req ''end_time'') = Some e \<and> strptime env e ''%Y-%m-%dT%H:%M'' \<noteq> None"
    using assms post
    by (auto simp: add_event_def and_then_def query_resources_all_def parse_datetime_eq
        succeed_def Let_def split: option.splits)
  then obtain s e where s: "parse_datetime_from_form env req ''start_time'' d = (Inr (Some s), d)"
    and e: "parse_datetime_from_form env req ''end_time'' d = (Inr (Some e), d)"
    by (auto simp: parse_datetime_eq)
  let ?ev = "\<lparr>event_id = None, title = t, start_time = s, end_time = e,
              description = form_get req ''description''\<rparr>"
  obtain ids where ids: "those (map (int_of_str env) (form_getlist req ''resources'')) = Some ids"
    using assms post t s e
    by (cases "those (map (int_of_str env) (form_getlist req ''resources''))")
      (auto simp: add_event_def and_then_def query_resources_all_def int_list_def
        succeed_def throw_def Let_def)
  obtain r where r: "check_conflicts ?ev ids d = (r, d)"
    using check_conflicts_run by blast
  let ?nid = "next_id (List.map_filter event_id (events d))"
  let ?saved = "?ev\<lparr>event_id := Some ?nid\<rparr>"
  let ?d1 = "d\<lparr>events := events d @ [?saved]\<rparr>"
  from add_allocations [of ids ?nid ?d1] obtain new where
    adds: "for_each ids (\<lambda>rid u. session_add_allocation (Some ?nid) rid) () ?d1 =
           (Inr (), ?d1\<lparr>allocations := allocations ?d1 @ new\<rparr>)"
    and new: "map alloc_resource_id new = ids" "\<forall>a \<in> set new. alloc_event_id a = ?nid"
    by blast
  have "d' = ?d1\<lparr>allocations := allocations ?d1 @ new\<rparr>"
    using assms post t s e ids r adds
    by (auto simp: add_event_def and_then_def query_resources_all_def int_list_def
        session_add_event_def succeed_def Let_def
        split: sum.splits if_splits)
  then show ?thesis
    using ids new by (intro exI [of _ ids] exI [of _ new] conjI exI [of _ ?saved]) simp_all
qed

lemma next_id_greater: "i \<in> set ids \<Longrightarrow> i < next_id ids"
  by (auto simp: next_id_def less_Suc_eq_le intro!: le_imp_less_Suc dest: Max_ge [OF finite_set])

lemma stored_event_ids:
  assumes "events_resolve d" "a \<in> set (allocations d)"
  shows "alloc_event_id a < next_id (List.map_filter event_id (events d))"
proof -
  from assms obtain ev where "event_of d a = Some ev"
    by (auto simp: events_resolve_def list_all_iff)
  then have "ev \<in> set (events d)" "event_id ev = Some (alloc_event_id a)"
    by (auto simp: event_of_def find_Some_iff)
  then have "alloc_event_id a \<in> set (List.map_filter event_id (events d))"
    by (force simp: List.map_filter_def)
  then show ?thesis by (rule next_id_greater)
qed

section \<open>The example data, evaluated\<close>




lemma sample_check_text:
  "conflict_message room standup = ''Resource 'Room A' is already booked by event 'Standup' from 2025-01-01 09:00:00 to 2025-01-01 10:00:00.''"
  by code_simp


lemma report_example:
  "utilisation_report (py_env (at_time (2025, 1, 1, 8, 0, 0, 0))) new_year_report report_db =
     (Inr \<lparr>flashed = [],
        response = ReportPage [room, hall]
          [\<lparr>row_resource = room, total_hours = 4, upcoming = [training]\<rparr>,
           \<lparr>row_resource = hall, total_hours = 2, upcoming = [night_shift]\<rparr>]
          [(room, training), (hall, night_shift)]
          (Some ''2025-01-01'') (Some ''2025-01-01'')\<rparr>, report_db)"
  by code_simp


lemma booking_example:
  "add_event (py_env morning) (booking_request ''2025-03-01T09:00'' ''2025-03-01T10:00'' [''1'', ''2''])
     report_db =
     (Inr \<lparr>flashed = [(''Event added successfully!'', ''success'')],
           response = Redirect ''list_events'' None\<rparr>,
      report_db\<lparr>events := events report_db @ [kickoff 12],
        allocations := allocations report_db @
          [\<lparr>allocation_id = 4, alloc_event_id = 12, alloc_resource_id = 1\<rparr>,
           \<lparr>allocation_id = 5, alloc_event_id = 12, alloc_resource_id = 2\<rparr>]\<rparr>)"
  by code_simp

section \<open>The claims\<close>



text \<open>
  C2. For a candidate whose start is not before its end, \<^verbatim>\<open>check_conflicts\<close> returns
  the list holding the one message of the invalid range, whatever the resource ids and
  the database are, and the database is as it was.
\<close>

theorem check_conflicts_invalid_range:
  "end_time ev \<le> start_time ev \<Longrightarrow>
     check_conflicts ev resource_ids d = (Inr [''Event start time must be before end time.''], d)"
  by (simp add: check_conflicts_def succeed_def)

theorem check_conflicts_invalid_range_witness:
  "end_time (standup\<lparr>start_time := (2025, 1, 1, 14, 0, 0, 0), end_time := (2025, 1, 1, 13, 0, 0, 0)\<rparr>)
     \<le> start_time (standup\<lparr>start_time := (2025, 1, 1, 14, 0, 0, 0), end_time := (2025, 1, 1, 13, 0, 0, 0)\<rparr>) \<and>
   check_conflicts (standup\<lparr>start_time := (2025, 1, 1, 14, 0, 0, 0), end_time := (2025, 1, 1, 13, 0, 0, 0)\<rparr>)
     [1, 2] sample_db = (Inr [''Event start time must be before end time.''], sample_db)"
proof -
  have h: "end_time (standup\<lparr>start_time := (2025, 1, 1, 14, 0, 0, 0), end_time := (2025, 1, 1, 13, 0, 0, 0)\<rparr>)
     \<le> start_time (standup\<lparr>start_time := (2025, 1, 1, 14, 0, 0, 0), end_time := (2025, 1, 1, 13, 0, 0, 0)\<rparr>)"
    by simp
  from check_conflicts_invalid_range [OF h, of "[1, 2]" sample_db] h show ?thesis by simp
qed

text \<open>
  C9. \<^verbatim>\<open>check_conflicts\<close> leaves the database as it was, for every candidate, list of
  resource ids and database, whether it returns or raises.
\<close>

theorem check_conflicts_read_only: "snd (check_conflicts ev resource_ids d) = d"
  by (simp add: check_conflicts_def succeed_def for_each_frame check_resource_frame)







text \<open>
  C4. For a report posted with two dates that parse, the second component of each row is
  the sum, rounded by \<^verbatim>\<open>round(x, 2)\<close>, over the events of the resource's allocations
  that pass the inclusive test \<open>event.start \<le> windowEnd\<close> and
  \<open>event.end \<ge> windowStart\<close>, of the hours between
  \<open>max(event.start, windowStart)\<close> and \<open>min(event.end, windowEnd)\<close> when the first is
  before the second, and of zero otherwise. The window starts at 00:00:00 of the start
  date, the first instant of that date, and ends at 23:59:59.999999 of the end date, the
  last instant of that date. Between two datetimes Python can construct, the first is
  before the second exactly when their difference is positive. The sum is taken in the
  floating-point arithmetic of the runtime, of which only \<open>x + 0.0 = x\<close> is assumed; the
  foreign keys are assumed to resolve.
\<close>

theorem report_total_hours:
  assumes "\<forall>x. float_add env x (float_zero env) = x"
    and "events_resolve d" and "req_method req = POST"
    and "given (form_get req ''start_date'') = Some s"
    and "given (form_get req ''end_date'') = Some e"
    and "strptime env s ''%Y-%m-%d'' = Some (y1, m1, d1, 0, 0, 0, 0)"
    and "strptime env e ''%Y-%m-%d'' = Some end_parsed"
    and "date_of end_parsed = (y2, m2, d2)"
  shows "\<exists>rows.
           utilisation_report env req d =
             (Inr \<lparr>flashed = [],
                   response = ReportPage (resources d) rows (flatten_upcoming rows)
                                (form_get req ''start_date'') (form_get req ''end_date'')\<rparr>, d) \<and>
           map row_resource rows = resources d \<and>
           map total_hours rows =
             map (\<lambda>r. round2 env (foldl (float_add env) (float_zero env)
                    (map (\<lambda>ev. if max (start_time ev) (y1, m1, d1, 0, 0, 0, 0) <
                                   min (end_time ev) (y2, m2, d2, 23, 59, 59, 999999)
                                then hours_of env
                                       (dt_sub (min (end_time ev) (y2, m2, d2, 23, 59, 59, 999999))
                                               (max (start_time ev) (y1, m1, d1, 0, 0, 0, 0)))
                                else float_zero env)
                       (filter (\<lambda>ev. start_time ev \<le> (y2, m2, d2, 23, 59, 59, 999999) \<and>
                                      end_time ev \<ge> (y1, m1, d1, 0, 0, 0, 0))
                          (events_on d r)))))
               (resources d) \<and>
           (\<forall>r. map Some (events_on d r) = map (event_of d) (allocations_on d (resource_id r))) \<and>
           (\<forall>t. valid_datetime t \<and> date_of t = (y1, m1, d1) \<longrightarrow> (y1, m1, d1, 0, 0, 0, 0) \<le> t) \<and>
           (\<forall>t. valid_datetime t \<and> date_of t = (y2, m2, d2) \<longrightarrow> t \<le> (y2, m2, d2, 23, 59, 59, 999999)) \<and>
           (\<forall>a b. valid_datetime a \<and> valid_datetime b \<longrightarrow> (a < b \<longleftrightarrow> 0 < dt_sub b a))"
proof -
  let ?ws = "(y1, m1, d1, 0, 0, 0, 0) :: datetime"
  let ?we = "(y2, m2, d2, 23, 59, 59, 999999) :: datetime"
  have we: "combine (date_of end_parsed) max_time = ?we"
    by (simp add: assms(8) combine_def max_time_def)
  from utilisation_report_eq [OF assms(2-7)] obtain rows where
    run: "utilisation_report env req d =
             (Inr \<lparr>flashed = [],
                   response = ReportPage (resources d) rows (flatten_upcoming rows)
                                (form_get req ''start_date'') (form_get req ''end_date'')\<rparr>, d)"
    and rows: "list_all2 (row_for env ?ws ?we d) (resources d) rows"
    unfolding we by blast
  note totals = rows_totals [OF rows assms(1), unfolded clipped_hours_def in_window_def]
  have days: "\<forall>t. valid_datetime t \<and> date_of t = (y1, m1, d1) \<longrightarrow> ?ws \<le> t"
    "\<forall>t. valid_datetime t \<and> date_of t = (y2, m2, d2) \<longrightarrow> t \<le> ?we"
    using day_bounds [of _ y1 m1 d1] day_bounds [of _ y2 m2 d2]
    by (simp_all add: combine_def max_time_def)
  have width: "\<forall>a b. valid_datetime a \<and> valid_datetime b \<longrightarrow> (a < b \<longleftrightarrow> 0 < dt_sub b a)"
    using dt_sub_positive by blast
  show ?thesis
    using run totals days events_on_all [OF assms(2)] width
    by (intro exI [of _ rows] conjI) simp_all
qed

theorem report_total_hours_witness:
  "(\<forall>x. float_add (py_env (at_time (2025, 1, 1, 8, 0, 0, 0))) x
          (float_zero (py_env (at_time (2025, 1, 1, 8, 0, 0, 0)))) = x) \<and>
   events_resolve report_db \<and> req_method new_year_report = POST \<and>
   given (form_get new_year_report ''start_date'') = Some ''2025-01-01'' \<and>
   given (form_get new_year_report ''end_date'') = Some ''2025-01-01'' \<and>
   py_strptime ''2025-01-01'' ''%Y-%m-%d'' = Some (2025, 1, 1, 0, 0, 0, 0) \<and>
   (\<exists>rows.
      utilisation_report (py_env (at_time (2025, 1, 1, 8, 0, 0, 0))) new_year_report report_db =
        (Inr \<lparr>flashed = [],
           response = ReportPage [room, hall] rows (flatten_upcoming rows)
             (Some ''2025-01-01'') (Some ''2025-01-01'')\<rparr>, report_db) \<and>
      map total_hours rows = [4, 2])"
proof -
  let ?env = "py_env (at_time (2025, 1, 1, 8, 0, 0, 0))"
  have float: "\<forall>x. float_add ?env x (float_zero ?env) = x"
    by (simp add: py_env_def)
  have db: "events_resolve report_db"
    by code_simp
  have req: "req_method new_year_report = POST"
    "given (form_get new_year_report ''start_date'') = Some ''2025-01-01''"
    "given (form_get new_year_report ''end_date'') = Some ''2025-01-01''"
    by (simp_all add: new_year_report_def form_get_def given_def)
  have parsed: "py_strptime ''2025-01-01'' ''%Y-%m-%d'' = Some (2025, 1, 1, 0, 0, 0, 0)"
    by code_simp
  then have p: "strptime ?env ''2025-01-01'' ''%Y-%m-%d'' = Some (2025, 1, 1, 0, 0, 0, 0)"
    by (simp add: py_env_def)
  have dt: "date_of (2025, 1, 1, 0, 0, 0, 0) = (2025, 1, 1)"
    by (simp add: date_of_def)
  from report_total_hours [OF float db req p p dt]
  obtain rows where "utilisation_report ?env new_year_report report_db =
             (Inr \<lparr>flashed = [],
                   response = ReportPage (resources report_db) rows (flatten_upcoming rows)
                                (form_get new_year_report ''start_date'')
                                (form_get new_year_report ''end_date'')\<rparr>, report_db)"
    by blast
  with report_example have "utilisation_report ?env new_year_report report_db =
        (Inr \<lparr>flashed = [],
           response = ReportPage [room, hall] rows (flatten_upcoming rows)
             (Some ''2025-01-01'') (Some ''2025-01-01'')\<rparr>, report_db) \<and>
      map total_hours rows = [4, 2]"
    by simp
  then have "\<exists>rows. utilisation_report ?env new_year_report report_db =
        (Inr \<lparr>flashed = [],
           response = ReportPage [room, hall] rows (flatten_upcoming rows)
             (Some ''2025-01-01'') (Some ''2025-01-01'')\<rparr>, report_db) \<and>
      map total_hours rows = [4, 2]"
    by (rule exI)
  with float db req parsed show ?thesis
    by (intro conjI)
qed

text \<open>
  C6, as the code has it. The test of the upcoming booking stands inside the test of the
  window: an event outside the window is never recorded, however late it starts. For a
  report posted with two dates that parse, each resource's upcoming list is sorted by
  start time; it holds only events of that resource's allocations that pass the window
  test; it holds every such event that starts at or after a moment \<open>T\<close> no reading of
  the clock during the request exceeds, once for each allocation; and every event it
  holds starts at or after any moment that no reading of the clock precedes.
\<close>

theorem report_upcoming:
  assumes "events_resolve d" and "req_method req = POST"
    and "given (form_get req ''start_date'') = Some s"
    and "given (form_get req ''end_date'') = Some e"
    and "strptime env s ''%Y-%m-%d'' = Some window_start"
    and "strptime env e ''%Y-%m-%d'' = Some end_parsed"
    and "window_end = combine (date_of end_parsed) max_time"
  shows "\<exists>rows.
           utilisation_report env req d =
             (Inr \<lparr>flashed = [],
                   response = ReportPage (resources d) rows (flatten_upcoming rows)
                                (form_get req ''start_date'') (form_get req ''end_date'')\<rparr>, d) \<and>
           list_all2 (\<lambda>r row.
               row_resource row = r \<and>
               sorted (map start_time (upcoming row)) \<and>
               mset (upcoming row) \<subseteq>#
                 mset (filter (\<lambda>ev. start_time ev \<le> window_end \<and> end_time ev \<ge> window_start)
                         (events_on d r)) \<and>
               (\<forall>T. (\<forall>n. now env n \<le> T) \<longrightarrow>
                  mset (filter (\<lambda>ev. T \<le> start_time ev)
                          (filter (\<lambda>ev. start_time ev \<le> window_end \<and> end_time ev \<ge> window_start)
                             (events_on d r)))
                    \<subseteq># mset (upcoming row)) \<and>
               (\<forall>T. (\<forall>n. T \<le> now env n) \<longrightarrow>
                  mset (upcoming row) \<subseteq>#
                    mset (filter (\<lambda>ev. T \<le> start_time ev)
                            (filter (\<lambda>ev. start_time ev \<le> window_end \<and> end_time ev \<ge> window_start)
                               (events_on d r)))))
             (resources d) rows"
proof -
  from utilisation_report_eq [OF assms(1-6)] obtain rows where
    run: "utilisation_report env req d =
             (Inr \<lparr>flashed = [],
                   response = ReportPage (resources d) rows (flatten_upcoming rows)
                                (form_get req ''start_date'') (form_get req ''end_date'')\<rparr>, d)"
    and rows: "list_all2 (row_for env window_start window_end d) (resources d) rows"
    unfolding assms(7) by blast
  note ups = rows_upcoming [OF rows, unfolded in_window_def]
  show ?thesis
    using run ups by (intro exI [of _ rows] conjI)
qed

theorem report_upcoming_witness:
  "events_resolve report_db \<and> req_method new_year_report = POST \<and>
   given (form_get new_year_report ''start_date'') = Some ''2025-01-01'' \<and>
   given (form_get new_year_report ''end_date'') = Some ''2025-01-01'' \<and>
   py_strptime ''2025-01-01'' ''%Y-%m-%d'' = Some (2025, 1, 1, 0, 0, 0, 0) \<and>
   combine (date_of (2025, 1, 1, 0, 0, 0, 0)) max_time = (2025, 1, 1, 23, 59, 59, 999999) \<and>
   (\<exists>rows.
      utilisation_report (py_env (at_time (2025, 1, 1, 8, 0, 0, 0))) new_year_report report_db =
        (Inr \<lparr>flashed = [],
           response = ReportPage [room, hall] rows (flatten_upcoming rows)
             (Some ''2025-01-01'') (Some ''2025-01-01'')\<rparr>, report_db) \<and>
      map upcoming rows = [[training], [night_shift]])"
proof -
  let ?env = "py_env (at_time (2025, 1, 1, 8, 0, 0, 0))"
  have db: "events_resolve report_db"
    by code_simp
  have req: "req_method new_year_report = POST"
    "given (form_get new_year_report ''start_date'') = Some ''2025-01-01''"
    "given (form_get new_year_report ''end_date'') = Some ''2025-01-01''"
    by (simp_all add: new_year_report_def form_get_def given_def)
  have parsed: "py_strptime ''2025-01-01'' ''%Y-%m-%d'' = Some (2025, 1, 1, 0, 0, 0, 0)"
    by code_simp
  then have p: "strptime ?env ''2025-01-01'' ''%Y-%m-%d'' = Some (2025, 1, 1, 0, 0, 0, 0)"
    by (simp add: py_env_def)
  have we: "combine (date_of (2025, 1, 1, 0, 0, 0, 0)) max_time = (2025, 1, 1, 23, 59, 59, 999999)"
    by (simp add: combine_def date_of_def max_time_def)
  from report_upcoming [OF db req p p we [symmetric]]
  obtain rows where "utilisation_report ?env new_year_report report_db =
             (Inr \<lparr>flashed = [],
                   response = ReportPage (resources report_db) rows (flatten_upcoming rows)
                                (form_get new_year_report ''start_date'')
                                (form_get new_year_report ''end_date'')\<rparr>, report_db)"
    by blast
  with report_example have "utilisation_report ?env new_year_report report_db =
        (Inr \<lparr>flashed = [],
           response = ReportPage [room, hall] rows (flatten_upcoming rows)
             (Some ''2025-01-01'') (Some ''2025-01-01'')\<rparr>, report_db) \<and>
      map upcoming rows = [[training], [night_shift]]"
    by simp
  then have "\<exists>rows. utilisation_report ?env new_year_report report_db =
        (Inr \<lparr>flashed = [],
           response = ReportPage [room, hall] rows (flatten_upcoming rows)
             (Some ''2025-01-01'') (Some ''2025-01-01'')\<rparr>, report_db) \<and>
      map upcoming rows = [[training], [night_shift]]"
    by (rule exI)
  with db req parsed we show ?thesis
    by (intro conjI)
qed

text \<open>
  The claim C6 as stated fails: the hall is allocated to an event that starts on
  2025-06-01, after the clock's 2025-01-01 08:00, and the report for 2025-01-01 does not
  list it among the hall's upcoming bookings.
\<close>

theorem upcoming_outside_window_counterexample:
  "map alloc_resource_id (allocations report_db) = [1, 2, 2] \<and>
   resource_id hall = 2 \<and>
   event_of report_db (allocations report_db ! 2) = Some offsite \<and>
   at_time (2025, 1, 1, 8, 0, 0, 0) 0 \<le> start_time offsite \<and>
   at_time (2025, 1, 1, 8, 0, 0, 0) 1 \<le> start_time offsite \<and>
   utilisation_report (py_env (at_time (2025, 1, 1, 8, 0, 0, 0))) new_year_report report_db =
     (Inr \<lparr>flashed = [],
        response = ReportPage [room, hall]
          [\<lparr>row_resource = room, total_hours = 4, upcoming = [training]\<rparr>,
           \<lparr>row_resource = hall, total_hours = 2, upcoming = [night_shift]\<rparr>]
          [(room, training), (hall, night_shift)]
          (Some ''2025-01-01'') (Some ''2025-01-01'')\<rparr>, report_db) \<and>
   offsite \<notin> set [night_shift]"
proof -
  have "map alloc_resource_id (allocations report_db) = [1, 2, 2]" "resource_id hall = 2"
    "event_of report_db (allocations report_db ! 2) = Some offsite"
    by (simp_all add: report_db_def hall_def event_of_def training_def night_shift_def offsite_def)
  moreover have "at_time (2025, 1, 1, 8, 0, 0, 0) 0 \<le> start_time offsite"
    "at_time (2025, 1, 1, 8, 0, 0, 0) 1 \<le> start_time offsite" "offsite \<notin> set [night_shift]"
    by (simp_all add: at_time_def offsite_def night_shift_def)
  ultimately show ?thesis
    using report_example by (intro conjI)
qed




text \<open>
  C8, as the code has it. When \<^verbatim>\<open>add_event\<close> commits, on a database whose allocations
  all belong to stored events, the new event's allocations read back are as many as the
  selected identifiers, the i-th allocation is bound to the i-th selected identifier, and
  all of them reference the new event. They are bound to different resources when the
  selected identifiers are different from one another.
\<close>

theorem add_event_round_trip:
  assumes "add_event env req d =
             (Inr \<lparr>flashed = [(''Event added successfully!'', ''success'')],
                   response = Redirect ''list_events'' None\<rparr>, d')"
    and "events_resolve d"
  shows "\<exists>saved ids allocs.
           those (map (int_of_str env) (form_getlist req ''resources'')) = Some ids \<and>
           events d' = events d @ [saved] \<and>
           rel_event_allocations saved d' = (Inr allocs, d') \<and>
           length allocs = length ids \<and>
           map alloc_resource_id allocs = ids \<and>
           (\<forall>a \<in> set allocs. Some (alloc_event_id a) = event_id saved) \<and>
           (distinct ids \<longrightarrow> distinct (map alloc_resource_id allocs))"
proof -
  let ?nid = "next_id (List.map_filter event_id (events d))"
  from add_event_committed [of env req d d'] assms(1)
  obtain ids new saved where ids: "those (map (int_of_str env) (form_getlist req ''resources'')) = Some ids"
    and saved: "events d' = events d @ [saved]" "event_id saved = Some ?nid"
    and allocs: "allocations d' = allocations d @ new"
    and new: "map alloc_resource_id new = ids" "\<forall>a \<in> set new. alloc_event_id a = ?nid"
    by blast
  have "filter (\<lambda>a. Some (alloc_event_id a) = event_id saved) (allocations d) = []"
    using stored_event_ids [OF assms(2)] saved(2) by (fastforce simp: filter_empty_conv)
  moreover have "filter (\<lambda>a. Some (alloc_event_id a) = event_id saved) new = new"
    using new(2) saved(2) by (simp add: filter_id_conv)
  ultimately have reread: "rel_event_allocations saved d' = (Inr new, d')"
    by (simp add: rel_event_allocations_def allocs)
  have "length new = length ids"
    using new(1) by (metis length_map)
  then show ?thesis
    using ids saved reread new
    by (intro exI [of _ saved] exI [of _ ids] exI [of _ new] conjI) simp_all
qed

theorem add_event_round_trip_witness:
  "add_event (py_env morning) (booking_request ''2025-03-01T09:00'' ''2025-03-01T10:00'' [''1'', ''2''])
     report_db =
     (Inr \<lparr>flashed = [(''Event added successfully!'', ''success'')],
           response = Redirect ''list_events'' None\<rparr>,
      report_db\<lparr>events := events report_db @ [kickoff 12],
        allocations := allocations report_db @
          [\<lparr>allocation_id = 4, alloc_event_id = 12, alloc_resource_id = 1\<rparr>,
           \<lparr>allocation_id = 5, alloc_event_id = 12, alloc_resource_id = 2\<rparr>]\<rparr>) \<and>
   events_resolve report_db \<and>
   distinct [1, 2 :: int] \<and>
   (\<exists>allocs.
      rel_event_allocations (kickoff 12)
        (report_db\<lparr>events := events report_db @ [kickoff 12],
          allocations := allocations report_db @
            [\<lparr>allocation_id = 4, alloc_event_id = 12, alloc_resource_id = 1\<rparr>,
             \<lparr>allocation_id = 5, alloc_event_id = 12, alloc_resource_id = 2\<rparr>]\<rparr>) =
        (Inr allocs,
         report_db\<lparr>events := events report_db @ [kickoff 12],
          allocations := allocations report_db @
            [\<lparr>allocation_id = 4, alloc_event_id = 12, alloc_resource_id = 1\<rparr>,
             \<lparr>allocation_id = 5, alloc_event_id = 12, alloc_resource_id = 2\<rparr>]\<rparr>) \<and>
      length allocs = 2 \<and> map alloc_resource_id allocs = [1, 2] \<and>
      distinct (map alloc_resource_id allocs))"
proof -
  have db: "events_resolve report_db"
    by code_simp
  have ids: "those (map (int_of_str (py_env morning))
      (form_getlist (booking_request ''2025-03-01T09:00'' ''2025-03-01T10:00'' [''1'', ''2'']) ''resources''))
      = Some [1, 2]"
    by code_simp
  from add_event_round_trip [OF booking_example db] ids
  show ?thesis
    using booking_example db by auto
qed

text \<open>
  The claim C8 as stated fails: a form that selects resource 1 twice commits two
  allocations of the new event, both bound to resource 1.
\<close>

theorem repeated_resource_counterexample:
  "form_getlist (booking_request ''2025-03-01T09:00'' ''2025-03-01T10:00'' [''1'', ''1'']) ''resources'' =
     [''1'', ''1''] \<and>
   check_conflicts (kickoff 1\<lparr>event_id := None\<rparr>) [1, 1] room_db = (Inr [], room_db) \<and>
   add_event (py_env morning) (booking_request ''2025-03-01T09:00'' ''2025-03-01T10:00'' [''1'', ''1''])
     room_db =
     (Inr \<lparr>flashed = [(''Event added successfully!'', ''success'')],
           response = Redirect ''list_events'' None\<rparr>,
      \<lparr>events = [kickoff 1], resources = [room],
        allocations = [\<lparr>allocation_id = 1, alloc_event_id = 1, alloc_resource_id = 1\<rparr>,
                       \<lparr>allocation_id = 2, alloc_event_id = 1, alloc_resource_id = 1\<rparr>]\<rparr>) \<and>
   rel_event_allocations (kickoff 1)
     \<lparr>events = [kickoff 1], resources = [room],
        allocations = [\<lparr>allocation_id = 1, alloc_event_id = 1, alloc_resource_id = 1\<rparr>,
                       \<lparr>allocation_id = 2, alloc_event_id = 1, alloc_resource_id = 1\<rparr>]\<rparr> =
     (Inr [\<lparr>allocation_id = 1, alloc_event_id = 1, alloc_resource_id = 1\<rparr>,
           \<lparr>allocation_id = 2, alloc_event_id = 1, alloc_resource_id = 1\<rparr>],
      \<lparr>events = [kickoff 1], resources = [room],
        allocations = [\<lparr>allocation_id = 1, alloc_event_id = 1, alloc_resource_id = 1\<rparr>,
                       \<lparr>allocation_id = 2, alloc_event_id = 1, alloc_resource_id = 1\<rparr>]\<rparr>) \<and>
   \<not> distinct (map alloc_resource_id
      [\<lparr>allocation_id = 1, alloc_event_id = 1, alloc_resource_id = 1\<rparr>,
       \<lparr>allocation_id = 2, alloc_event_id = 1, alloc_resource_id = 1\<rparr>])"
  by code_simp

end
